theory Spec2Isabelle
  imports Main "HOL-Library.Word"
begin

unbundle bit_operations_syntax

section \<open>The A/C scheduler of \<open>ac_app.c\<close>\<close>

text \<open>
  \<open>ac_app.c\<close> keeps its state in file-level statics and changes it only inside three
  timer callbacks. The statics become the fields of one record, every callback becomes a
  function from the record to the record, and what a callback hands to the firmware
  (an infrared message, a log line, a redraw request, a timer start or stop) is recorded
  in the record too, so that "transmits nothing" and "arms no timer" are statements
  about fields.
\<close>

subsection \<open>Constants\<close>

type_synonym u32 = "32 word"

definition one_second_interval :: u32 where
  "one_second_interval = 1000"

definition one_minute_interval :: u32 where
  "one_minute_interval = 60000"

definition one_hour_interval :: u32 where
  "one_hour_interval = 3600000"

definition three_hour_interval :: u32 where
  "three_hour_interval = 10800000"

definition ac_on_text :: string where
  "ac_on_text = ''The A/C should be on.''"

definition ac_off_text :: string where
  "ac_off_text = ''The A/C should be off.''"

definition ir_address_1 :: u32 where
  "ir_address_1 = 0x00006F98"

definition ir_command_1 :: u32 where
  "ir_command_1 = 0x0000E619"

definition ir_command_2 :: u32 where
  "ir_command_2 = 0x0000F708"

subsection \<open>Data\<close>

datatype AcSequenceState =
    AcSequenceIdle
  | AcSequenceTurnOnStep1
  | AcSequenceTurnOnStep2

text \<open>
  Modelled from the spec: the protocol enumeration and the message struct are declared in
  the firmware's infrared headers, which are not part of the repository. The spec names
  the message as the tuple (protocol tag, 32-bit address, 32-bit command) and the one
  tag the program uses, extended NEC; every other tag of the firmware is kept apart from
  it as \<open>InfraredProtocolOther\<close>.
\<close>

datatype InfraredProtocol =
    InfraredProtocolNECext
  | InfraredProtocolOther nat

record InfraredMessage =
  protocol :: InfraredProtocol
  address :: u32
  command :: u32

text \<open>
  Modelled from the spec: the timer service is the firmware's. The spec describes it as
  one-shot, explicitly re-armed timers with a millisecond interval; all three timers are
  allocated with \<open>FuriTimerTypeOnce\<close>. A timer is \<open>None\<close> while it is stopped and
  \<open>Some i\<close> while it is running with interval \<open>i\<close>: \<open>furi_timer_start\<close> writes
  \<open>Some i\<close> (restarting a running timer), \<open>furi_timer_stop\<close> writes \<open>None\<close>.
\<close>

type_synonym FuriTimer = "u32 option"

record app_state =
  ac_is_on :: bool
  next_signal_interval :: u32
  remaining_time :: u32
  sequence_state :: AcSequenceState
  signal_timer :: FuriTimer
  countdown_timer :: FuriTimer
  sequence_timer :: FuriTimer
  ir_transmitted :: "InfraredMessage list"  \<comment> \<open>\<open>infrared_signal_transmit\<close> calls, oldest first\<close>
  furi_log :: "(string \<times> string) list"       \<comment> \<open>\<open>FURI_LOG_I\<close> calls: tag and text, oldest first\<close>
  view_port_updates :: nat                   \<comment> \<open>number of \<open>view_port_update\<close> calls\<close>

subsection \<open>Formatting\<close>

text \<open>\<open>%lu\<close>: the decimal digits of an unsigned value, no padding.\<close>

definition digit_char :: "nat \<Rightarrow> char" where
  "digit_char d = ''0123456789'' ! d"

function format_lu :: "nat \<Rightarrow> string" where
  "format_lu n =
     (if n < 10 then [digit_char n]
      else format_lu (n div 10) @ [digit_char (n mod 10)])"
  by pat_completeness auto
termination
  by (relation "measure (\<lambda>n. n)") auto

declare format_lu.simps [simp del]

text \<open>\<open>%08lX\<close>: upper-case hexadecimal, zero-padded to eight digits, which is the whole
  of a 32-bit value.\<close>

definition hex_char :: "nat \<Rightarrow> char" where
  "hex_char d = ''0123456789ABCDEF'' ! d"

definition format_08lX :: "u32 \<Rightarrow> string" where
  "format_08lX w =
     map (\<lambda>i. hex_char (unat (drop_bit (4 * i) w AND 0xF))) [7, 6, 5, 4, 3, 2, 1, 0]"

text \<open>\<open>snprintf(buf, size, ...)\<close> keeps at most \<open>size - 1\<close> characters of the formatted
  text (the last byte is the terminator).\<close>

definition snprintf :: "nat \<Rightarrow> string \<Rightarrow> string" where
  "snprintf n str = take (n - 1) str"

subsection \<open>The render callback\<close>

text \<open>The text written into \<open>countdown_text[32]\<close> by \<open>ac_app_render_callback\<close>.\<close>

definition countdown_text :: "app_state \<Rightarrow> string" where
  "countdown_text s =
     (let remaining_minutes = remaining_time s div one_minute_interval in
      if remaining_minutes = 0 then snprintf 32 ''Sending signal soon...''
      else if remaining_minutes = 1 then snprintf 32 ''Next signal in 1 min.''
      else snprintf 32 (''Next signal in '' @ format_lu (unat remaining_minutes) @ '' mins.''))"

text \<open>The callback draws two centred strings: the status at (64, 32) and the countdown
  at (64, 48). It reads the state and does not change it.\<close>

definition ac_app_render_callback :: "app_state \<Rightarrow> (nat \<times> nat \<times> string) list" where
  "ac_app_render_callback s =
     [(64, 32, if ac_is_on s then ac_on_text else ac_off_text),
      (64, 48, countdown_text s)]"

subsection \<open>Transmission\<close>

definition send_ir_signal :: "u32 \<Rightarrow> u32 \<Rightarrow> app_state \<Rightarrow> app_state" where
  "send_ir_signal addr cmd s =
     s\<lparr>ir_transmitted := ir_transmitted s @
          [\<lparr>protocol = InfraredProtocolNECext, address = addr, command = cmd\<rparr>],
       furi_log := furi_log s @
          [(''ir_tx'', ''Sent infrared signal: address=0x'' @ format_08lX addr @
                       '', command=0x'' @ format_08lX cmd)]\<rparr>"

subsection \<open>The three timer callbacks\<close>

definition sequence_step_callback :: "app_state \<Rightarrow> app_state" where
  "sequence_step_callback s =
     (if sequence_state s = AcSequenceTurnOnStep1 then
        (let s1 = send_ir_signal ir_address_1 ir_command_2 s;
             s2 = s1\<lparr>sequence_state := AcSequenceTurnOnStep2\<rparr>
         in s2\<lparr>sequence_timer := Some one_second_interval\<rparr>)
      else if sequence_state s = AcSequenceTurnOnStep2 then
        (let s1 = send_ir_signal ir_address_1 ir_command_2 s;
             s2 = s1\<lparr>sequence_state := AcSequenceIdle\<rparr>;
             s3 = s2\<lparr>ac_is_on := True\<rparr>;
             s4 = s3\<lparr>next_signal_interval := one_hour_interval\<rparr>;
             s5 = s4\<lparr>remaining_time := next_signal_interval s4\<rparr>;
             s6 = s5\<lparr>signal_timer := None\<rparr>;
             s7 = s6\<lparr>signal_timer := Some (next_signal_interval s6)\<rparr>;
             s8 = s7\<lparr>view_port_updates := Suc (view_port_updates s7)\<rparr>
         in s8\<lparr>furi_log := furi_log s8 @ [(''ac_app'', ''The A/C should be on.'')]\<rparr>)
      else s)"

definition send_signals_and_update_text :: "app_state \<Rightarrow> app_state" where
  "send_signals_and_update_text s =
     (if ac_is_on s then
        (let s1 = send_ir_signal ir_address_1 ir_command_1 s;
             s2 = s1\<lparr>ac_is_on := False\<rparr>;
             s3 = s2\<lparr>next_signal_interval := three_hour_interval\<rparr>;
             s4 = s3\<lparr>remaining_time := next_signal_interval s3\<rparr>;
             s5 = s4\<lparr>signal_timer := None\<rparr>;
             s6 = s5\<lparr>signal_timer := Some (next_signal_interval s5)\<rparr>;
             s7 = s6\<lparr>view_port_updates := Suc (view_port_updates s6)\<rparr>
         in s7\<lparr>furi_log := furi_log s7 @ [(''ac_app'', ''The A/C should be off.'')]\<rparr>)
      else
        (let s1 = send_ir_signal ir_address_1 ir_command_1 s;
             s2 = s1\<lparr>sequence_state := AcSequenceTurnOnStep1\<rparr>;
             s3 = s2\<lparr>sequence_timer := Some one_second_interval\<rparr>
         in s3\<lparr>view_port_updates := Suc (view_port_updates s3)\<rparr>))"

definition update_countdown :: "app_state \<Rightarrow> app_state" where
  "update_countdown s =
     (let s1 = (if remaining_time s \<ge> one_minute_interval
                then s\<lparr>remaining_time := remaining_time s - one_minute_interval\<rparr>
                else s\<lparr>remaining_time := 0\<rparr>);
          remaining_minutes = remaining_time s1 div one_minute_interval;
          s2 = (if remaining_minutes = 1
                then s1\<lparr>furi_log := furi_log s1 @
                       [(''countdown'', ''Time remaining until next signal: 1 minute'')]\<rparr>
                else s1\<lparr>furi_log := furi_log s1 @
                       [(''countdown'', ''Time remaining until next signal: '' @
                           format_lu (unat remaining_minutes) @ '' minutes'')]\<rparr>);
          s3 = s2\<lparr>view_port_updates := Suc (view_port_updates s2)\<rparr>;
          s4 = s3\<lparr>countdown_timer := None\<rparr>
      in s4\<lparr>countdown_timer := Some one_minute_interval\<rparr>)"

subsection \<open>Start-up and executions\<close>

text \<open>The statics as their initialisers leave them; nothing has been sent or logged and
  no timer runs.\<close>

definition initial_state :: app_state where
  "initial_state =
     \<lparr>ac_is_on = False,
      next_signal_interval = one_hour_interval,
      remaining_time = one_hour_interval,
      sequence_state = AcSequenceIdle,
      signal_timer = None,
      countdown_timer = None,
      sequence_timer = None,
      ir_transmitted = [],
      furi_log = [],
      view_port_updates = 0\<rparr>"

text \<open>\<open>ac_app_app\<close> up to its event loop: it logs the start, allocates the timers
  (stopped), calls \<open>send_signals_and_update_text\<close> directly and starts the countdown
  timer.\<close>

definition ac_app_start :: app_state where
  "ac_app_start =
     (let s1 = initial_state\<lparr>furi_log := furi_log initial_state @
                 [(''ac_app'', ''The app started.'')]\<rparr>;
          s2 = send_signals_and_update_text s1
      in s2\<lparr>countdown_timer := Some one_minute_interval\<rparr>)"

text \<open>Any sequence of callback invocations, with no regard to the timers.\<close>

datatype callback = ScheduleTick | SequenceStep | CountdownTick

fun invoke :: "callback \<Rightarrow> app_state \<Rightarrow> app_state" where
  "invoke ScheduleTick s = send_signals_and_update_text s"
| "invoke SequenceStep s = sequence_step_callback s"
| "invoke CountdownTick s = update_countdown s"

fun run :: "callback list \<Rightarrow> app_state \<Rightarrow> app_state" where
  "run [] s = s"
| "run (c # cs) s = run cs (invoke c s)"

text \<open>
  Executions as the timer service drives them: a callback runs only when its timer is
  running and expires; a one-shot timer is stopped when it expires, before its callback
  is entered. The order in which running timers expire is left open, which includes
  every order real time allows.
\<close>

fun timer_expire :: "callback \<Rightarrow> app_state \<Rightarrow> app_state option" where
  "timer_expire ScheduleTick s =
     (case signal_timer s of
        None \<Rightarrow> None
      | Some i \<Rightarrow> Some (send_signals_and_update_text (s\<lparr>signal_timer := None\<rparr>)))"
| "timer_expire SequenceStep s =
     (case sequence_timer s of
        None \<Rightarrow> None
      | Some i \<Rightarrow> Some (sequence_step_callback (s\<lparr>sequence_timer := None\<rparr>)))"
| "timer_expire CountdownTick s =
     (case countdown_timer s of
        None \<Rightarrow> None
      | Some i \<Rightarrow> Some (update_countdown (s\<lparr>countdown_timer := None\<rparr>)))"

fun run_timers :: "callback list \<Rightarrow> app_state \<Rightarrow> app_state option" where
  "run_timers [] s = Some s"
| "run_timers (c # cs) s =
     (case timer_expire c s of None \<Rightarrow> None | Some s' \<Rightarrow> run_timers cs s')"

section \<open>Properties\<close>

lemmas interval_defs =
  one_second_interval_def one_minute_interval_def one_hour_interval_def three_hour_interval_def

lemmas code_defs = ir_address_1_def ir_command_1_def ir_command_2_def

lemmas callback_defs =
  send_signals_and_update_text_def sequence_step_callback_def update_countdown_def
  send_ir_signal_def

subsection \<open>Timer-driven executions are callback sequences\<close>

text \<open>
  No callback reads a timer or the log, so on the program's variables and on what has been
  transmitted an execution driven by timer expiries from start-up is the same as the
  plain sequence of its callbacks, begun with the schedule tick that start-up makes,
  from the initial statics. What is shown below of all callback sequences therefore
  holds of the timer-driven ones.
\<close>

lemma invoke_same_variables:
  assumes "ac_is_on s = ac_is_on u \<and> sequence_state s = sequence_state u \<and>
      next_signal_interval s = next_signal_interval u \<and>
      remaining_time s = remaining_time u \<and> ir_transmitted s = ir_transmitted u"
  shows "ac_is_on (invoke c s) = ac_is_on (invoke c u) \<and>
      sequence_state (invoke c s) = sequence_state (invoke c u) \<and>
      next_signal_interval (invoke c s) = next_signal_interval (invoke c u) \<and>
      remaining_time (invoke c s) = remaining_time (invoke c u) \<and>
      ir_transmitted (invoke c s) = ir_transmitted (invoke c u)"
  using assms by (cases c) (simp_all add: callback_defs Let_def)

lemma run_timers_same_variables:
  assumes "run_timers cbs s = Some t"
    and "ac_is_on s = ac_is_on u \<and> sequence_state s = sequence_state u \<and>
      next_signal_interval s = next_signal_interval u \<and>
      remaining_time s = remaining_time u \<and> ir_transmitted s = ir_transmitted u"
  shows "ac_is_on t = ac_is_on (run cbs u) \<and>
      sequence_state t = sequence_state (run cbs u) \<and>
      next_signal_interval t = next_signal_interval (run cbs u) \<and>
      remaining_time t = remaining_time (run cbs u) \<and>
      ir_transmitted t = ir_transmitted (run cbs u)"
  using assms
proof (induction cbs arbitrary: s u)
  case Nil
  then show ?case by auto
next
  case (Cons c cbs)
  from Cons.prems(1) obtain s0 where
    s0: "s0 = (case c of ScheduleTick \<Rightarrow> s\<lparr>signal_timer := None\<rparr>
                       | SequenceStep \<Rightarrow> s\<lparr>sequence_timer := None\<rparr>
                       | CountdownTick \<Rightarrow> s\<lparr>countdown_timer := None\<rparr>)"
    and rest: "run_timers cbs (invoke c s0) = Some t"
    by (cases c) (auto split: option.splits)
  from s0 Cons.prems(2)
  have "ac_is_on s0 = ac_is_on u \<and> sequence_state s0 = sequence_state u \<and>
      next_signal_interval s0 = next_signal_interval u \<and>
      remaining_time s0 = remaining_time u \<and> ir_transmitted s0 = ir_transmitted u"
    by (cases c) simp_all
  then have "ac_is_on (invoke c s0) = ac_is_on (invoke c u) \<and>
      sequence_state (invoke c s0) = sequence_state (invoke c u) \<and>
      next_signal_interval (invoke c s0) = next_signal_interval (invoke c u) \<and>
      remaining_time (invoke c s0) = remaining_time (invoke c u) \<and>
      ir_transmitted (invoke c s0) = ir_transmitted (invoke c u)"
    by (rule invoke_same_variables)
  with rest have "ac_is_on t = ac_is_on (run cbs (invoke c u)) \<and>
      sequence_state t = sequence_state (run cbs (invoke c u)) \<and>
      next_signal_interval t = next_signal_interval (run cbs (invoke c u)) \<and>
      remaining_time t = remaining_time (run cbs (invoke c u)) \<and>
      ir_transmitted t = ir_transmitted (run cbs (invoke c u))"
    by (rule Cons.IH)
  then show ?case by simp
qed

lemma timer_runs_are_callback_runs:
  assumes "run_timers cbs ac_app_start = Some t"
  shows "ac_is_on t = ac_is_on (run (ScheduleTick # cbs) initial_state) \<and>
      sequence_state t = sequence_state (run (ScheduleTick # cbs) initial_state) \<and>
      next_signal_interval t = next_signal_interval (run (ScheduleTick # cbs) initial_state) \<and>
      remaining_time t = remaining_time (run (ScheduleTick # cbs) initial_state) \<and>
      ir_transmitted t = ir_transmitted (run (ScheduleTick # cbs) initial_state)"
proof -
  have "ac_is_on ac_app_start = ac_is_on (invoke ScheduleTick initial_state) \<and>
      sequence_state ac_app_start = sequence_state (invoke ScheduleTick initial_state) \<and>
      next_signal_interval ac_app_start =
        next_signal_interval (invoke ScheduleTick initial_state) \<and>
      remaining_time ac_app_start = remaining_time (invoke ScheduleTick initial_state) \<and>
      ir_transmitted ac_app_start = ir_transmitted (invoke ScheduleTick initial_state)"
    by (simp add: ac_app_start_def initial_state_def callback_defs Let_def)
  with assms
  have "ac_is_on t = ac_is_on (run cbs (invoke ScheduleTick initial_state)) \<and>
      sequence_state t = sequence_state (run cbs (invoke ScheduleTick initial_state)) \<and>
      next_signal_interval t =
        next_signal_interval (run cbs (invoke ScheduleTick initial_state)) \<and>
      remaining_time t = remaining_time (run cbs (invoke ScheduleTick initial_state)) \<and>
      ir_transmitted t = ir_transmitted (run cbs (invoke ScheduleTick initial_state))"
    by (rule run_timers_same_variables)
  then show ?thesis by simp
qed

subsection \<open>Rescheduling after a transition\<close>

text \<open>
  C1. A schedule tick taken while the A/C is on turns it off and sets the schedule
  interval, the remaining time and the (re-armed) schedule timer to 10 800 000 ms. The
  sequence step taken in \<open>AcSequenceTurnOnStep2\<close>, which completes the turn-on sequence,
  turns it on and sets all three to 3 600 000 ms.
\<close>

theorem schedule_reset_after_transition:
  "(ac_is_on s \<longrightarrow>
      (let s' = send_signals_and_update_text s in
         \<not> ac_is_on s' \<and>
         next_signal_interval s' = 10800000 \<and>
         remaining_time s' = 10800000 \<and>
         signal_timer s' = Some 10800000)) \<and>
   (sequence_state s = AcSequenceTurnOnStep2 \<longrightarrow>
      (let s' = sequence_step_callback s in
         ac_is_on s' \<and>
         sequence_state s' = AcSequenceIdle \<and>
         next_signal_interval s' = 3600000 \<and>
         remaining_time s' = 3600000 \<and>
         signal_timer s' = Some 3600000))"
  by (simp add: callback_defs interval_defs Let_def)

theorem schedule_reset_after_transition_witness:
  "ac_is_on (run [ScheduleTick, SequenceStep, SequenceStep] initial_state) \<and>
   \<not> ac_is_on (send_signals_and_update_text
      (run [ScheduleTick, SequenceStep, SequenceStep] initial_state)) \<and>
   next_signal_interval (send_signals_and_update_text
      (run [ScheduleTick, SequenceStep, SequenceStep] initial_state)) = 10800000 \<and>
   remaining_time (send_signals_and_update_text
      (run [ScheduleTick, SequenceStep, SequenceStep] initial_state)) = 10800000 \<and>
   signal_timer (send_signals_and_update_text
      (run [ScheduleTick, SequenceStep, SequenceStep] initial_state)) = Some 10800000 \<and>
   sequence_state (run [ScheduleTick, SequenceStep] initial_state) = AcSequenceTurnOnStep2 \<and>
   ac_is_on (sequence_step_callback (run [ScheduleTick, SequenceStep] initial_state)) \<and>
   next_signal_interval (sequence_step_callback
      (run [ScheduleTick, SequenceStep] initial_state)) = 3600000 \<and>
   remaining_time (sequence_step_callback
      (run [ScheduleTick, SequenceStep] initial_state)) = 3600000 \<and>
   signal_timer (sequence_step_callback
      (run [ScheduleTick, SequenceStep] initial_state)) = Some 3600000"
proof -
  have on: "ac_is_on (run [ScheduleTick, SequenceStep, SequenceStep] initial_state)"
    by (simp add: callback_defs initial_state_def Let_def)
  have step2: "sequence_state (run [ScheduleTick, SequenceStep] initial_state) =
      AcSequenceTurnOnStep2"
    by (simp add: callback_defs initial_state_def Let_def)
  show ?thesis
    using on step2
      schedule_reset_after_transition
        [of "run [ScheduleTick, SequenceStep, SequenceStep] initial_state"]
      schedule_reset_after_transition
        [of "run [ScheduleTick, SequenceStep] initial_state"]
    by (simp add: Let_def)
qed

subsection \<open>The countdown\<close>

text \<open>
  C5. A countdown tick takes one minute off the remaining time when at least one minute
  is left and sets it to 0 otherwise; read as an unsigned number the new value is never
  above the old one, so the 32-bit subtraction never wraps.
\<close>

theorem update_countdown_floor_clamped:
  "unat (remaining_time (update_countdown s)) =
     (if 60000 \<le> unat (remaining_time s) then unat (remaining_time s) - 60000 else 0) \<and>
   unat (remaining_time (update_countdown s)) \<le> unat (remaining_time s)"
  by (simp add: update_countdown_def interval_defs Let_def word_le_nat_alt unat_sub)

theorem update_countdown_floor_clamped_witness:
  "unat (remaining_time (update_countdown initial_state)) = 3540000 \<and>
   unat (remaining_time (update_countdown (initial_state\<lparr>remaining_time := 59999\<rparr>))) = 0"
  using update_countdown_floor_clamped [of initial_state]
        update_countdown_floor_clamped [of "initial_state\<lparr>remaining_time := 59999\<rparr>"]
  by (simp add: initial_state_def interval_defs)

subsection \<open>The sequence step in the idle state\<close>

text \<open>
  C9. When the sequence state is idle, the sequence-step callback returns the state it
  was given: nothing is transmitted or logged, no field changes and no timer is
  started or stopped.
\<close>

theorem sequence_step_idle_noop:
  "sequence_state s = AcSequenceIdle \<Longrightarrow> sequence_step_callback s = s"
  by (simp add: sequence_step_callback_def)

theorem sequence_step_idle_noop_witness:
  "sequence_state initial_state = AcSequenceIdle \<and>
   sequence_step_callback initial_state = initial_state"
proof -
  have idle: "sequence_state initial_state = AcSequenceIdle"
    by (simp add: initial_state_def)
  from idle sequence_step_idle_noop [OF idle] show ?thesis by simp
qed

subsection \<open>Remaining time against the schedule interval\<close>

lemma remaining_le_interval_invoke:
  assumes le: "remaining_time s \<le> next_signal_interval s"
  shows "remaining_time (invoke c s) \<le> next_signal_interval (invoke c s)"
proof (cases c)
  case ScheduleTick
  with le show ?thesis by (simp add: callback_defs Let_def)
next
  case SequenceStep
  with le show ?thesis by (simp add: callback_defs Let_def)
next
  case CountdownTick
  have "remaining_time (update_countdown s) \<le> remaining_time s"
    by (simp add: update_countdown_def interval_defs Let_def word_le_nat_alt unat_sub)
  moreover have "next_signal_interval (update_countdown s) = next_signal_interval s"
    by (simp add: update_countdown_def Let_def)
  ultimately show ?thesis using le CountdownTick by simp
qed

lemma remaining_le_interval_run:
  "remaining_time s \<le> next_signal_interval s \<Longrightarrow>
   remaining_time (run cbs s) \<le> next_signal_interval (run cbs s)"
  by (induction cbs arbitrary: s) (simp_all add: remaining_le_interval_invoke)

text \<open>
  C10. After any sequence of schedule-tick, sequence-step and countdown callbacks run
  from the initial values of the statics, the remaining time is at most the schedule
  interval (both read as unsigned 32-bit values).
\<close>

theorem remaining_le_interval_reachable:
  "remaining_time (run cbs initial_state) \<le> next_signal_interval (run cbs initial_state)"
  by (rule remaining_le_interval_run) (simp add: initial_state_def)

theorem remaining_le_interval_reachable_witness:
  "remaining_time
     (run [ScheduleTick, SequenceStep, SequenceStep, CountdownTick, ScheduleTick, CountdownTick]
        initial_state) = 10740000 \<and>
   next_signal_interval
     (run [ScheduleTick, SequenceStep, SequenceStep, CountdownTick, ScheduleTick, CountdownTick]
        initial_state) = 10800000 \<and>
   remaining_time
     (run [ScheduleTick, SequenceStep, SequenceStep, CountdownTick, ScheduleTick, CountdownTick]
        initial_state) \<le>
   next_signal_interval
     (run [ScheduleTick, SequenceStep, SequenceStep, CountdownTick, ScheduleTick, CountdownTick]
        initial_state)"
  using remaining_le_interval_reachable
    [of "[ScheduleTick, SequenceStep, SequenceStep, CountdownTick, ScheduleTick, CountdownTick]"]
  by (simp add: callback_defs initial_state_def interval_defs Let_def)

subsection \<open>The schedule tick while the A/C is off\<close>

text \<open>
  C6. A schedule tick taken while the A/C is off transmits the power code, moves the
  sequence state to \<open>AcSequenceTurnOnStep1\<close>, starts the sequence timer for 1000 ms and
  requests a redraw, and changes nothing else: \<open>ac_is_on\<close>, the schedule interval and
  the remaining time keep their values. The first sequence step keeps them too; the
  second one, which completes the sequence, turns the A/C on and resets interval and
  remaining time.
\<close>

theorem schedule_tick_off_frame:
  assumes "\<not> ac_is_on s"
  shows
    "send_signals_and_update_text s =
       s\<lparr>sequence_state := AcSequenceTurnOnStep1,
         sequence_timer := Some 1000,
         ir_transmitted := ir_transmitted s @
           [\<lparr>protocol = InfraredProtocolNECext, address = 0x00006F98, command = 0x0000E619\<rparr>],
         furi_log := furi_log s @
           [(''ir_tx'', ''Sent infrared signal: address=0x00006F98, command=0x0000E619'')],
         view_port_updates := Suc (view_port_updates s)\<rparr> \<and>
     (let s1 = send_signals_and_update_text s;
          s2 = sequence_step_callback s1;
          s3 = sequence_step_callback s2
      in ac_is_on s1 = ac_is_on s \<and>
         next_signal_interval s1 = next_signal_interval s \<and>
         remaining_time s1 = remaining_time s \<and>
         ac_is_on s2 = ac_is_on s \<and>
         next_signal_interval s2 = next_signal_interval s \<and>
         remaining_time s2 = remaining_time s \<and>
         ac_is_on s3 \<and>
         next_signal_interval s3 = 3600000 \<and>
         remaining_time s3 = 3600000)"
  using assms
  by (simp add: callback_defs Let_def interval_defs code_defs format_08lX_def hex_char_def)

theorem schedule_tick_off_frame_witness:
  "\<not> ac_is_on initial_state \<and>
   send_signals_and_update_text initial_state =
     initial_state\<lparr>sequence_state := AcSequenceTurnOnStep1,
       sequence_timer := Some 1000,
       ir_transmitted :=
         [\<lparr>protocol = InfraredProtocolNECext, address = 0x00006F98, command = 0x0000E619\<rparr>],
       furi_log :=
         [(''ir_tx'', ''Sent infrared signal: address=0x00006F98, command=0x0000E619'')],
       view_port_updates := 1\<rparr> \<and>
   \<not> ac_is_on (send_signals_and_update_text initial_state) \<and>
   next_signal_interval (send_signals_and_update_text initial_state) = 3600000 \<and>
   remaining_time (send_signals_and_update_text initial_state) = 3600000"
proof -
  have off: "\<not> ac_is_on initial_state"
    by (simp add: initial_state_def)
  from off schedule_tick_off_frame [OF off] show ?thesis
    by (simp add: initial_state_def interval_defs Let_def)
qed

subsection \<open>The turn-on sequence\<close>

lemma idle_steps_noop:
  "sequence_state s = AcSequenceIdle \<Longrightarrow> (sequence_step_callback ^^ n) s = s"
  by (induction n) (simp_all add: sequence_step_callback_def)

text \<open>The countdown callback leaves the sequencer, the schedule and the transmissions
  alone.\<close>

lemma update_countdown_frame:
  "ac_is_on (update_countdown s) = ac_is_on s \<and>
   sequence_state (update_countdown s) = sequence_state s \<and>
   ir_transmitted (update_countdown s) = ir_transmitted s \<and>
   signal_timer (update_countdown s) = signal_timer s \<and>
   sequence_timer (update_countdown s) = sequence_timer s \<and>
   next_signal_interval (update_countdown s) = next_signal_interval s"
  by (simp add: update_countdown_def Let_def)

lemma run_timers_snoc:
  "run_timers (cbs @ [c]) s =
     (case run_timers cbs s of None \<Rightarrow> None | Some s' \<Rightarrow> timer_expire c s')"
  by (induction cbs arbitrary: s) (simp_all split: option.splits)

lemma sequencer_cycle:
  assumes off: "\<not> ac_is_on s"
    and stopped: "signal_timer s = None"
    and reach: "run_timers cbs (send_signals_and_update_text s) = Some t"
  shows
    "filter (\<lambda>c. c \<noteq> CountdownTick) cbs =
       map (\<lambda>i. [SequenceStep, SequenceStep, ScheduleTick, ScheduleTick] ! (i mod 4))
         [0..<length (filter (\<lambda>c. c \<noteq> CountdownTick) cbs)] \<and>
     ir_transmitted t = ir_transmitted s @
       map (\<lambda>i. [\<lparr>protocol = InfraredProtocolNECext, address = 0x00006F98, command = 0x0000E619\<rparr>,
                  \<lparr>protocol = InfraredProtocolNECext, address = 0x00006F98, command = 0x0000F708\<rparr>,
                  \<lparr>protocol = InfraredProtocolNECext, address = 0x00006F98, command = 0x0000F708\<rparr>,
                  \<lparr>protocol = InfraredProtocolNECext, address = 0x00006F98, command = 0x0000E619\<rparr>]
                 ! (i mod 4))
         [0..<Suc (length (filter (\<lambda>c. c \<noteq> CountdownTick) cbs))] \<and>
     sequence_state t =
       [AcSequenceTurnOnStep1, AcSequenceTurnOnStep2, AcSequenceIdle, AcSequenceIdle]
         ! (length (filter (\<lambda>c. c \<noteq> CountdownTick) cbs) mod 4) \<and>
     ac_is_on t =
       [False, False, True, False] ! (length (filter (\<lambda>c. c \<noteq> CountdownTick) cbs) mod 4) \<and>
     sequence_timer t =
       [Some 1000, Some 1000, None, None]
         ! (length (filter (\<lambda>c. c \<noteq> CountdownTick) cbs) mod 4) \<and>
     signal_timer t =
       [None, None, Some 3600000, Some 10800000]
         ! (length (filter (\<lambda>c. c \<noteq> CountdownTick) cbs) mod 4)"
  using reach
proof (induction cbs arbitrary: t rule: rev_induct)
  case Nil
  then have "t = send_signals_and_update_text s" by simp
  with off stopped show ?case
    by (simp add: callback_defs interval_defs code_defs Let_def)
next
  case (snoc c cbs)
  from snoc.prems obtain t' where
    prev: "run_timers cbs (send_signals_and_update_text s) = Some t'"
    and last: "timer_expire c t' = Some t"
    by (auto simp add: run_timers_snoc split: option.splits)
  define e where "e = filter (\<lambda>c. c \<noteq> CountdownTick) cbs"
  define n where "n = length e"
  note ih = snoc.IH [OF prev, folded e_def, folded n_def]
  have len: "length e = n" by (simp add: n_def)
  have phase: "n mod 4 = 0 \<or> n mod 4 = 1 \<or> n mod 4 = 2 \<or> n mod 4 = 3"
    by arith
  show ?case
  proof (cases c)
    case CountdownTick
    with last have "t = update_countdown (t'\<lparr>countdown_timer := None\<rparr>)"
      by (auto split: option.splits)
    with ih CountdownTick show ?thesis
      by (simp add: update_countdown_frame e_def [symmetric] len)
  next
    case SequenceStep
    with last have run: "sequence_timer t' \<noteq> None"
      and t: "t = sequence_step_callback (t'\<lparr>sequence_timer := None\<rparr>)"
      by (auto split: option.splits)
    from phase run ih have "n mod 4 = 0 \<or> n mod 4 = 1"
      by auto
    with ih t SequenceStep show ?thesis
      by (auto simp add: e_def [symmetric] len mod_Suc callback_defs interval_defs code_defs
          Let_def)
  next
    case ScheduleTick
    with last have run: "signal_timer t' \<noteq> None"
      and t: "t = send_signals_and_update_text (t'\<lparr>signal_timer := None\<rparr>)"
      by (auto split: option.splits)
    from phase run ih have "n mod 4 = 2 \<or> n mod 4 = 3"
      by auto
    with ih t ScheduleTick show ?thesis
      by (auto simp add: e_def [symmetric] len mod_Suc callback_defs interval_defs code_defs
          Let_def)
  qed
qed

text \<open>The path of the turn-on sequence with nothing between its steps.\<close>

lemma turn_on_sequence_path:
  assumes "\<not> ac_is_on s"
  shows
    "let s1 = send_signals_and_update_text s;
         s2 = sequence_step_callback (s1\<lparr>sequence_timer := None\<rparr>);
         s3 = sequence_step_callback (s2\<lparr>sequence_timer := None\<rparr>)
     in ir_transmitted s1 = ir_transmitted s @
          [\<lparr>protocol = InfraredProtocolNECext, address = 0x00006F98, command = 0x0000E619\<rparr>] \<and>
        sequence_timer s1 = Some 1000 \<and>
        timer_expire SequenceStep s1 = Some s2 \<and>
        ir_transmitted s2 = ir_transmitted s1 @
          [\<lparr>protocol = InfraredProtocolNECext, address = 0x00006F98, command = 0x0000F708\<rparr>] \<and>
        sequence_timer s2 = Some 1000 \<and>
        timer_expire SequenceStep s2 = Some s3 \<and>
        ir_transmitted s3 = ir_transmitted s2 @
          [\<lparr>protocol = InfraredProtocolNECext, address = 0x00006F98, command = 0x0000F708\<rparr>] \<and>
        sequence_state s3 = AcSequenceIdle \<and>
        sequence_timer s3 = None \<and>
        timer_expire SequenceStep s3 = None \<and>
        (\<forall>n. (sequence_step_callback ^^ n) s3 = s3)"
proof -
  define s1 where "s1 = send_signals_and_update_text s"
  define s2 where "s2 = sequence_step_callback (s1\<lparr>sequence_timer := None\<rparr>)"
  define s3 where "s3 = sequence_step_callback (s2\<lparr>sequence_timer := None\<rparr>)"
  have a1: "ir_transmitted s1 = ir_transmitted s @
      [\<lparr>protocol = InfraredProtocolNECext, address = 0x00006F98, command = 0x0000E619\<rparr>]"
    and b1: "sequence_timer s1 = Some 1000"
    and c1: "sequence_state s1 = AcSequenceTurnOnStep1"
    using assms by (simp_all add: s1_def callback_defs Let_def interval_defs code_defs)
  have a2: "ir_transmitted s2 = ir_transmitted s1 @
      [\<lparr>protocol = InfraredProtocolNECext, address = 0x00006F98, command = 0x0000F708\<rparr>]"
    and b2: "sequence_timer s2 = Some 1000"
    and c2: "sequence_state s2 = AcSequenceTurnOnStep2"
    using c1 by (simp_all add: s2_def callback_defs Let_def interval_defs code_defs)
  have a3: "ir_transmitted s3 = ir_transmitted s2 @
      [\<lparr>protocol = InfraredProtocolNECext, address = 0x00006F98, command = 0x0000F708\<rparr>]"
    and b3: "sequence_timer s3 = None"
    and c3: "sequence_state s3 = AcSequenceIdle"
    using c2 by (simp_all add: s3_def callback_defs Let_def interval_defs code_defs)
  have e1: "timer_expire SequenceStep s1 = Some s2"
    using b1 by (simp add: s2_def)
  have e2: "timer_expire SequenceStep s2 = Some s3"
    using b2 by (simp add: s3_def)
  have e3: "timer_expire SequenceStep s3 = None"
    using b3 by simp
  have n: "\<forall>n. (sequence_step_callback ^^ n) s3 = s3"
    using c3 by (simp add: idle_steps_noop)
  show ?thesis
    unfolding Let_def s1_def [symmetric] s2_def [symmetric] s3_def [symmetric]
    using a1 b1 e1 a2 b2 e2 a3 b3 c3 e3 n by simp
qed

text \<open>
  C2. Start the turn-on sequence by a schedule tick in any state in which the A/C is off.

  First, the path with nothing in between: the tick transmits the power code and starts
  the sequence timer for 1000 ms; the first expiry of that timer transmits the mode code
  and starts the timer for 1000 ms again; the second expiry transmits the mode code and
  leaves the sequence idle with the sequence timer stopped. After that the sequence timer
  cannot expire, and however often the sequence-step callback is entered it changes and
  transmits nothing.

  Second, every execution that follows the tick. The schedule timer is stopped when the
  tick is entered (it is the callback of that one-shot timer, or the call at start-up
  before the timer was ever started). Let the timers expire in any order and number, the
  countdown timer included, and take the expiries other than the countdown's. They can
  only be, in this order and repeating, sequence step, sequence step, schedule tick,
  schedule tick, and the transmissions since the state before the tick are, in this order
  and repeating, power, mode, mode, power. After \<open>n\<close> such expiries the state is given
  by \<open>n mod 4\<close>:
  \<^item> 0: first waiting step, A/C off, sequence timer running for 1000 ms, schedule timer
    stopped;
  \<^item> 1: second waiting step, otherwise the same;
  \<^item> 2: idle, A/C on, sequence timer stopped, schedule timer running for 3 600 000 ms;
  \<^item> 3: idle, A/C off, sequence timer stopped, schedule timer running for 10 800 000 ms.

  So every activation is followed by exactly the two mode codes of the sequencer, each
  from the callback of a 1000 ms timer, whatever the countdown does in between; the next
  transmission is the power code of the schedule tick that turns the A/C off, and the
  sequencer transmits again only after the schedule tick that starts it again. While the
  sequence is idle the sequence-step callback, entered any number of times, is the
  identity.
\<close>

theorem turn_on_sequence_transmissions:
  assumes "\<not> ac_is_on s"
  shows
    "(let s1 = send_signals_and_update_text s;
          s2 = sequence_step_callback (s1\<lparr>sequence_timer := None\<rparr>);
          s3 = sequence_step_callback (s2\<lparr>sequence_timer := None\<rparr>)
      in ir_transmitted s1 = ir_transmitted s @
           [\<lparr>protocol = InfraredProtocolNECext, address = 0x00006F98, command = 0x0000E619\<rparr>] \<and>
         sequence_timer s1 = Some 1000 \<and>
         timer_expire SequenceStep s1 = Some s2 \<and>
         ir_transmitted s2 = ir_transmitted s1 @
           [\<lparr>protocol = InfraredProtocolNECext, address = 0x00006F98, command = 0x0000F708\<rparr>] \<and>
         sequence_timer s2 = Some 1000 \<and>
         timer_expire SequenceStep s2 = Some s3 \<and>
         ir_transmitted s3 = ir_transmitted s2 @
           [\<lparr>protocol = InfraredProtocolNECext, address = 0x00006F98, command = 0x0000F708\<rparr>] \<and>
         sequence_state s3 = AcSequenceIdle \<and>
         sequence_timer s3 = None \<and>
         timer_expire SequenceStep s3 = None \<and>
         (\<forall>n. (sequence_step_callback ^^ n) s3 = s3)) \<and>
     (signal_timer s = None \<and> run_timers cbs (send_signals_and_update_text s) = Some t \<longrightarrow>
        (let e = filter (\<lambda>c. c \<noteq> CountdownTick) cbs; n = length e
         in e = map (\<lambda>i. [SequenceStep, SequenceStep, ScheduleTick, ScheduleTick] ! (i mod 4))
                  [0..<n] \<and>
            ir_transmitted t = ir_transmitted s @
              map (\<lambda>i. [\<lparr>protocol = InfraredProtocolNECext, address = 0x00006F98, command = 0x0000E619\<rparr>,
                         \<lparr>protocol = InfraredProtocolNECext, address = 0x00006F98, command = 0x0000F708\<rparr>,
                         \<lparr>protocol = InfraredProtocolNECext, address = 0x00006F98, command = 0x0000F708\<rparr>,
                         \<lparr>protocol = InfraredProtocolNECext, address = 0x00006F98, command = 0x0000E619\<rparr>]
                        ! (i mod 4))
                [0..<Suc n] \<and>
            sequence_state t =
              [AcSequenceTurnOnStep1, AcSequenceTurnOnStep2, AcSequenceIdle, AcSequenceIdle]
                ! (n mod 4) \<and>
            ac_is_on t = [False, False, True, False] ! (n mod 4) \<and>
            sequence_timer t = [Some 1000, Some 1000, None, None] ! (n mod 4) \<and>
            signal_timer t = [None, None, Some 3600000, Some 10800000] ! (n mod 4) \<and>
            (2 \<le> n mod 4 \<longrightarrow> (\<forall>k. (sequence_step_callback ^^ k) t = t))))"
proof -
  have path: "let s1 = send_signals_and_update_text s;
         s2 = sequence_step_callback (s1\<lparr>sequence_timer := None\<rparr>);
           s3 = sequence_step_callback (s2\<lparr>sequence_timer := None\<rparr>)
       in ir_transmitted s1 = ir_transmitted s @
            [\<lparr>protocol = InfraredProtocolNECext, address = 0x00006F98, command = 0x0000E619\<rparr>] \<and>
          sequence_timer s1 = Some 1000 \<and>
          timer_expire SequenceStep s1 = Some s2 \<and>
          ir_transmitted s2 = ir_transmitted s1 @
            [\<lparr>protocol = InfraredProtocolNECext, address = 0x00006F98, command = 0x0000F708\<rparr>] \<and>
          sequence_timer s2 = Some 1000 \<and>
          timer_expire SequenceStep s2 = Some s3 \<and>
          ir_transmitted s3 = ir_transmitted s2 @
            [\<lparr>protocol = InfraredProtocolNECext, address = 0x00006F98, command = 0x0000F708\<rparr>] \<and>
          sequence_state s3 = AcSequenceIdle \<and>
          sequence_timer s3 = None \<and>
          timer_expire SequenceStep s3 = None \<and>
          (\<forall>n. (sequence_step_callback ^^ n) s3 = s3)"
    using assms by (rule turn_on_sequence_path)
  have cycle: "signal_timer s = None \<and> run_timers cbs (send_signals_and_update_text s) = Some t \<longrightarrow>
        (let e = filter (\<lambda>c. c \<noteq> CountdownTick) cbs; n = length e
         in e = map (\<lambda>i. [SequenceStep, SequenceStep, ScheduleTick, ScheduleTick] ! (i mod 4))
                  [0..<n] \<and>
            ir_transmitted t = ir_transmitted s @
              map (\<lambda>i. [\<lparr>protocol = InfraredProtocolNECext, address = 0x00006F98, command = 0x0000E619\<rparr>,
                         \<lparr>protocol = InfraredProtocolNECext, address = 0x00006F98, command = 0x0000F708\<rparr>,
                         \<lparr>protocol = InfraredProtocolNECext, address = 0x00006F98, command = 0x0000F708\<rparr>,
                         \<lparr>protocol = InfraredProtocolNECext, address = 0x00006F98, command = 0x0000E619\<rparr>]
                        ! (i mod 4))
                [0..<Suc n] \<and>
            sequence_state t =
              [AcSequenceTurnOnStep1, AcSequenceTurnOnStep2, AcSequenceIdle, AcSequenceIdle]
                ! (n mod 4) \<and>
            ac_is_on t = [False, False, True, False] ! (n mod 4) \<and>
            sequence_timer t = [Some 1000, Some 1000, None, None] ! (n mod 4) \<and>
            signal_timer t = [None, None, Some 3600000, Some 10800000] ! (n mod 4) \<and>
            (2 \<le> n mod 4 \<longrightarrow> (\<forall>k. (sequence_step_callback ^^ k) t = t)))"
  proof (intro impI, elim conjE)
    assume stopped: "signal_timer s = None"
      and reach: "run_timers cbs (send_signals_and_update_text s) = Some t"
    define n where "n = length (filter (\<lambda>c. c \<noteq> CountdownTick) cbs)"
    note cyc = sequencer_cycle [OF assms stopped reach, folded n_def]
    have "(sequence_step_callback ^^ k) t = t" if "2 \<le> n mod 4" for k
    proof -
      from that have "n mod 4 = 2 \<or> n mod 4 = 3" by arith
      with cyc have "sequence_state t = AcSequenceIdle" by auto
      then show ?thesis by (rule idle_steps_noop)
    qed
    with cyc show "let e = filter (\<lambda>c. c \<noteq> CountdownTick) cbs; n = length e
         in e = map (\<lambda>i. [SequenceStep, SequenceStep, ScheduleTick, ScheduleTick] ! (i mod 4))
                  [0..<n] \<and>
            ir_transmitted t = ir_transmitted s @
              map (\<lambda>i. [\<lparr>protocol = InfraredProtocolNECext, address = 0x00006F98, command = 0x0000E619\<rparr>,
                         \<lparr>protocol = InfraredProtocolNECext, address = 0x00006F98, command = 0x0000F708\<rparr>,
                         \<lparr>protocol = InfraredProtocolNECext, address = 0x00006F98, command = 0x0000F708\<rparr>,
                         \<lparr>protocol = InfraredProtocolNECext, address = 0x00006F98, command = 0x0000E619\<rparr>]
                        ! (i mod 4))
                [0..<Suc n] \<and>
            sequence_state t =
              [AcSequenceTurnOnStep1, AcSequenceTurnOnStep2, AcSequenceIdle, AcSequenceIdle]
                ! (n mod 4) \<and>
            ac_is_on t = [False, False, True, False] ! (n mod 4) \<and>
            sequence_timer t = [Some 1000, Some 1000, None, None] ! (n mod 4) \<and>
            signal_timer t = [None, None, Some 3600000, Some 10800000] ! (n mod 4) \<and>
            (2 \<le> n mod 4 \<longrightarrow> (\<forall>k. (sequence_step_callback ^^ k) t = t))"
      unfolding Let_def n_def [symmetric] by blast
  qed
  from path cycle show ?thesis by blast
qed

theorem turn_on_sequence_transmissions_witness:
  "\<not> ac_is_on initial_state \<and>
   run_timers [SequenceStep, SequenceStep] (send_signals_and_update_text initial_state) =
     Some (sequence_step_callback
       ((sequence_step_callback
          ((send_signals_and_update_text initial_state)\<lparr>sequence_timer := None\<rparr>))
        \<lparr>sequence_timer := None\<rparr>)) \<and>
   ir_transmitted (sequence_step_callback
       ((sequence_step_callback
          ((send_signals_and_update_text initial_state)\<lparr>sequence_timer := None\<rparr>))
        \<lparr>sequence_timer := None\<rparr>)) =
     [\<lparr>protocol = InfraredProtocolNECext, address = 0x00006F98, command = 0x0000E619\<rparr>,
      \<lparr>protocol = InfraredProtocolNECext, address = 0x00006F98, command = 0x0000F708\<rparr>,
      \<lparr>protocol = InfraredProtocolNECext, address = 0x00006F98, command = 0x0000F708\<rparr>] \<and>
   run_timers [SequenceStep, SequenceStep, SequenceStep]
     (send_signals_and_update_text initial_state) = None \<and>
   send_signals_and_update_text
     (initial_state\<lparr>furi_log := [(''ac_app'', ''The app started.'')],
        countdown_timer := Some 60000\<rparr>) = ac_app_start \<and>
   signal_timer
     (initial_state\<lparr>furi_log := [(''ac_app'', ''The app started.'')],
        countdown_timer := Some 60000\<rparr>) = None \<and>
   map_option ir_transmitted
     (run_timers [SequenceStep, CountdownTick, SequenceStep, CountdownTick, ScheduleTick]
        ac_app_start) =
     Some [\<lparr>protocol = InfraredProtocolNECext, address = 0x00006F98, command = 0x0000E619\<rparr>,
           \<lparr>protocol = InfraredProtocolNECext, address = 0x00006F98, command = 0x0000F708\<rparr>,
           \<lparr>protocol = InfraredProtocolNECext, address = 0x00006F98, command = 0x0000F708\<rparr>,
           \<lparr>protocol = InfraredProtocolNECext, address = 0x00006F98, command = 0x0000E619\<rparr>] \<and>
   map_option sequence_state
     (run_timers [SequenceStep, CountdownTick, SequenceStep, CountdownTick, ScheduleTick]
        ac_app_start) = Some AcSequenceIdle \<and>
   map_option sequence_timer
     (run_timers [SequenceStep, CountdownTick, SequenceStep, CountdownTick, ScheduleTick]
        ac_app_start) = Some None \<and>
   map_option signal_timer
     (run_timers [SequenceStep, CountdownTick, SequenceStep, CountdownTick, ScheduleTick]
        ac_app_start) = Some (Some 10800000) \<and>
   map_option sequence_step_callback
     (run_timers [SequenceStep, CountdownTick, SequenceStep, CountdownTick, ScheduleTick]
        ac_app_start) =
     run_timers [SequenceStep, CountdownTick, SequenceStep, CountdownTick, ScheduleTick]
       ac_app_start"
proof -
  have off: "\<not> ac_is_on initial_state"
    by (simp add: initial_state_def)
  have empty: "ir_transmitted initial_state = []"
    by (simp add: initial_state_def)
  have first: "run_timers [SequenceStep, SequenceStep]
       (send_signals_and_update_text initial_state) =
     Some (sequence_step_callback
       ((sequence_step_callback
          ((send_signals_and_update_text initial_state)\<lparr>sequence_timer := None\<rparr>))
        \<lparr>sequence_timer := None\<rparr>)) \<and>
   ir_transmitted (sequence_step_callback
       ((sequence_step_callback
          ((send_signals_and_update_text initial_state)\<lparr>sequence_timer := None\<rparr>))
        \<lparr>sequence_timer := None\<rparr>)) =
     [\<lparr>protocol = InfraredProtocolNECext, address = 0x00006F98, command = 0x0000E619\<rparr>,
      \<lparr>protocol = InfraredProtocolNECext, address = 0x00006F98, command = 0x0000F708\<rparr>,
      \<lparr>protocol = InfraredProtocolNECext, address = 0x00006F98, command = 0x0000F708\<rparr>] \<and>
   run_timers [SequenceStep, SequenceStep, SequenceStep]
     (send_signals_and_update_text initial_state) = None"
    using off empty turn_on_sequence_transmissions [OF off]
    by (simp add: Let_def)
  define s0 where "s0 = (initial_state\<lparr>furi_log := [(''ac_app'', ''The app started.'')],
        countdown_timer := Some 60000\<rparr>)"
  have off0: "\<not> ac_is_on s0"
    and stopped0: "signal_timer s0 = None"
    and empty0: "ir_transmitted s0 = []"
    by (simp_all add: s0_def initial_state_def)
  have start: "send_signals_and_update_text s0 = ac_app_start"
    by (simp add: s0_def ac_app_start_def initial_state_def callback_defs interval_defs Let_def)
  obtain t where reach:
    "run_timers [SequenceStep, CountdownTick, SequenceStep, CountdownTick, ScheduleTick]
       ac_app_start = Some t"
    by (simp add: ac_app_start_def initial_state_def callback_defs interval_defs code_defs
        Let_def)
  from reach start
  have reach0: "run_timers [SequenceStep, CountdownTick, SequenceStep, CountdownTick, ScheduleTick]
       (send_signals_and_update_text s0) = Some t"
    by simp
  have second: "ir_transmitted t =
     [\<lparr>protocol = InfraredProtocolNECext, address = 0x00006F98, command = 0x0000E619\<rparr>,
      \<lparr>protocol = InfraredProtocolNECext, address = 0x00006F98, command = 0x0000F708\<rparr>,
      \<lparr>protocol = InfraredProtocolNECext, address = 0x00006F98, command = 0x0000F708\<rparr>,
      \<lparr>protocol = InfraredProtocolNECext, address = 0x00006F98, command = 0x0000E619\<rparr>] \<and>
    sequence_state t = AcSequenceIdle \<and> sequence_timer t = None \<and>
    signal_timer t = Some 10800000"
    using turn_on_sequence_transmissions
      [OF off0, of "[SequenceStep, CountdownTick, SequenceStep, CountdownTick, ScheduleTick]" t]
      stopped0 reach0 empty0
    by (simp add: Let_def upt_rec)
  have "\<forall>k. (sequence_step_callback ^^ k) t = t"
    using turn_on_sequence_transmissions
      [OF off0, of "[SequenceStep, CountdownTick, SequenceStep, CountdownTick, ScheduleTick]" t]
      stopped0 reach0
    by (simp add: Let_def)
  then have "(sequence_step_callback ^^ 1) t = t" ..
  then have third: "sequence_step_callback t = t"
    by simp
  from off first start stopped0 reach second third show ?thesis
    unfolding s0_def by simp
qed

subsection \<open>Transitions of the device state\<close>

lemma busy_implies_off_invoke:
  assumes "sequence_state s \<noteq> AcSequenceIdle \<longrightarrow> \<not> ac_is_on s"
  shows "sequence_state (invoke c s) \<noteq> AcSequenceIdle \<longrightarrow> \<not> ac_is_on (invoke c s)"
  using assms by (cases c) (auto simp add: callback_defs Let_def)

lemma busy_implies_off_run:
  "sequence_state s \<noteq> AcSequenceIdle \<longrightarrow> \<not> ac_is_on s \<Longrightarrow>
   sequence_state (run cbs s) \<noteq> AcSequenceIdle \<longrightarrow> \<not> ac_is_on (run cbs s)"
proof (induction cbs arbitrary: s)
  case Nil
  then show ?case by simp
next
  case (Cons c cbs)
  from Cons.prems
  have "sequence_state (invoke c s) \<noteq> AcSequenceIdle \<longrightarrow> \<not> ac_is_on (invoke c s)"
    by (rule busy_implies_off_invoke)
  then show ?case using Cons.IH by simp
qed

text \<open>
  C3. \<open>ac_is_on\<close> is written in two places: to false in the on-branch of the schedule
  tick, and to true in the sequence step taken in \<open>AcSequenceTurnOnStep2\<close>. In every
  state \<open>s\<close> reached from the initial statics by any sequence of callbacks, and for the
  next callback \<open>c\<close>:
  \<^item> while the sequence is not idle the A/C is still recorded as off;
  \<^item> the write to false happens with the A/C on (ON to OFF);
  \<^item> the write to true happens with the A/C off (OFF to ON), in the step that returns
    the sequence to idle;
  \<^item> \<open>ac_is_on\<close> changes in no other step.
\<close>

theorem device_state_transitions:
  "let s = run cbs initial_state; s' = invoke c s in
     (sequence_state s \<noteq> AcSequenceIdle \<longrightarrow> \<not> ac_is_on s) \<and>
     (c = ScheduleTick \<and> ac_is_on s \<longrightarrow> \<not> ac_is_on s') \<and>
     (c = SequenceStep \<and> sequence_state s = AcSequenceTurnOnStep2 \<longrightarrow>
        \<not> ac_is_on s \<and> ac_is_on s' \<and> sequence_state s' = AcSequenceIdle) \<and>
     (ac_is_on s' \<noteq> ac_is_on s \<longrightarrow>
        (if ac_is_on s then c = ScheduleTick
         else c = SequenceStep \<and> sequence_state s = AcSequenceTurnOnStep2 \<and>
              sequence_state s' = AcSequenceIdle))"
proof -
  define s where "s = run cbs initial_state"
  have inv: "sequence_state s \<noteq> AcSequenceIdle \<longrightarrow> \<not> ac_is_on s"
    unfolding s_def by (rule busy_implies_off_run) (simp add: initial_state_def)
  have off: "c = ScheduleTick \<and> ac_is_on s \<longrightarrow> \<not> ac_is_on (invoke c s)"
    by (simp add: callback_defs Let_def)
  have on: "c = SequenceStep \<and> sequence_state s = AcSequenceTurnOnStep2 \<longrightarrow>
        \<not> ac_is_on s \<and> ac_is_on (invoke c s) \<and> sequence_state (invoke c s) = AcSequenceIdle"
    using inv by (simp add: callback_defs Let_def)
  have only: "ac_is_on (invoke c s) \<noteq> ac_is_on s \<longrightarrow>
        (if ac_is_on s then c = ScheduleTick
         else c = SequenceStep \<and> sequence_state s = AcSequenceTurnOnStep2 \<and>
              sequence_state (invoke c s) = AcSequenceIdle)"
    by (cases c) (auto simp add: callback_defs Let_def)
  show ?thesis
    unfolding Let_def s_def [symmetric] using inv off on only by blast
qed

theorem device_state_transitions_witness:
  "sequence_state (run [ScheduleTick, SequenceStep] initial_state) = AcSequenceTurnOnStep2 \<and>
   \<not> ac_is_on (run [ScheduleTick, SequenceStep] initial_state) \<and>
   ac_is_on (invoke SequenceStep (run [ScheduleTick, SequenceStep] initial_state)) \<and>
   sequence_state (invoke SequenceStep (run [ScheduleTick, SequenceStep] initial_state)) =
     AcSequenceIdle \<and>
   ac_is_on (run [ScheduleTick, SequenceStep, SequenceStep] initial_state) \<and>
   \<not> ac_is_on (invoke ScheduleTick
       (run [ScheduleTick, SequenceStep, SequenceStep] initial_state))"
proof -
  have step2: "sequence_state (run [ScheduleTick, SequenceStep] initial_state) =
      AcSequenceTurnOnStep2"
    by (simp add: callback_defs initial_state_def Let_def)
  have on: "ac_is_on (run [ScheduleTick, SequenceStep, SequenceStep] initial_state)"
    by (simp add: callback_defs initial_state_def Let_def)
  show ?thesis
    using step2 on
      device_state_transitions [of "[ScheduleTick, SequenceStep]" SequenceStep]
      device_state_transitions [of "[ScheduleTick, SequenceStep, SequenceStep]" ScheduleTick]
    by (simp add: Let_def)
qed

subsection \<open>The countdown text\<close>

lemma digit_char_value:
  "d < 10 \<Longrightarrow> of_char (digit_char d) = (48 + d :: nat)"
proof -
  assume "d < 10"
  then have "d \<in> {0, 1, 2, 3, 4, 5, 6, 7, 8, 9}" by auto
  then show ?thesis by (auto simp add: digit_char_def)
qed

text \<open>\<open>format_lu\<close> writes the decimal numeral of its argument: reading the digits back,
  most significant first, gives the number.\<close>

lemma format_lu_value:
  "foldl (\<lambda>a c. 10 * a + (of_char c - 48)) 0 (format_lu n) = n"
proof (induction n rule: format_lu.induct)
  case (1 n)
  show ?case
  proof (cases "n < 10")
    case True
    then show ?thesis
      by (subst format_lu.simps) (simp add: digit_char_value)
  next
    case False
    have "n mod 10 < 10" by simp
    then have d: "of_char (digit_char (n mod 10)) = (48 + n mod 10 :: nat)"
      by (rule digit_char_value)
    from False "1.IH" d show ?thesis
      by (subst format_lu.simps) simp
  qed
qed

lemma format_lu_length:
  "0 < k \<Longrightarrow> n < 10 ^ k \<Longrightarrow> length (format_lu n) \<le> k"
proof (induction k arbitrary: n)
  case 0
  then show ?case by simp
next
  case (Suc k)
  show ?case
  proof (cases "n < 10")
    case True
    then show ?thesis
      by (subst format_lu.simps) simp
  next
    case False
    with Suc.prems have k: "0 < k"
      by (cases k) simp_all
    from Suc.prems have "n div 10 < 10 ^ k"
      by (simp add: less_mult_imp_div_less mult.commute)
    with k have "length (format_lu (n div 10)) \<le> k"
      by (rule Suc.IH)
    with False show ?thesis
      by (subst format_lu.simps) simp
  qed
qed

text \<open>The buffer of 32 bytes never truncates: a 32-bit time has at most 71582 minutes.\<close>

lemma countdown_text_minutes:
  "countdown_text s =
     (let m = unat (remaining_time s) div 60000 in
      if m = 0 then ''Sending signal soon...''
      else if m = 1 then ''Next signal in 1 min.''
      else ''Next signal in '' @ format_lu m @ '' mins.'')"
proof -
  define m where "m = unat (remaining_time s) div 60000"
  have um: "unat (remaining_time s div one_minute_interval) = m"
    by (simp add: m_def one_minute_interval_def unat_div)
  have z: "remaining_time s div one_minute_interval = 0 \<longleftrightarrow> m = 0"
    using um by (simp add: word_unat_eq_iff)
  have o: "remaining_time s div one_minute_interval = 1 \<longleftrightarrow> m = 1"
    using um by (simp add: word_unat_eq_iff)
  have "unat (remaining_time s) < 2 ^ 32"
    using unsigned_less [of "remaining_time s", where ?'a = nat] by simp
  then have "m < 10 ^ 5"
    by (simp add: m_def)
  then have "length (format_lu m) \<le> 5"
    by (intro format_lu_length) simp_all
  then have t: "snprintf 32 (''Next signal in '' @ format_lu m @ '' mins.'') =
      ''Next signal in '' @ format_lu m @ '' mins.''"
    by (simp add: snprintf_def)
  show ?thesis
    unfolding countdown_text_def Let_def m_def [symmetric] um z o t
    by (simp add: snprintf_def)
qed

text \<open>
  C7. The render callback draws the status line and, below it, the countdown text:
  "Sending signal soon..." when the remaining time is 0, "Next signal in 1 min." when it
  is 60 000 ms, and "Next signal in N mins." with N in decimal when it is N * 60 000 ms
  for some N of at least 2.
\<close>

theorem countdown_text_cases:
  "ac_app_render_callback s =
     [(64, 32, if ac_is_on s then ''The A/C should be on.'' else ''The A/C should be off.''),
      (64, 48, countdown_text s)] \<and>
   (remaining_time s = 0 \<longrightarrow> countdown_text s = ''Sending signal soon...'') \<and>
   (remaining_time s = 60000 \<longrightarrow> countdown_text s = ''Next signal in 1 min.'') \<and>
   (2 \<le> N \<and> unat (remaining_time s) = N * 60000 \<longrightarrow>
      countdown_text s = ''Next signal in '' @ format_lu N @ '' mins.'')"
  by (simp add: ac_app_render_callback_def ac_on_text_def ac_off_text_def
      countdown_text_minutes)

lemma format_lu_60: "format_lu 60 = ''60''"
  by (subst format_lu.simps, simp)+ (simp add: digit_char_def)

theorem countdown_text_cases_witness:
  "remaining_time (initial_state\<lparr>remaining_time := 0\<rparr>) = 0 \<and>
   countdown_text (initial_state\<lparr>remaining_time := 0\<rparr>) = ''Sending signal soon...'' \<and>
   remaining_time (initial_state\<lparr>remaining_time := 60000\<rparr>) = 60000 \<and>
   countdown_text (initial_state\<lparr>remaining_time := 60000\<rparr>) = ''Next signal in 1 min.'' \<and>
   unat (remaining_time initial_state) = 60 * 60000 \<and>
   countdown_text initial_state = ''Next signal in 60 mins.'' \<and>
   ac_app_render_callback initial_state =
     [(64, 32, ''The A/C should be off.''), (64, 48, ''Next signal in 60 mins.'')]"
proof -
  have u: "unat (remaining_time initial_state) = 60 * 60000"
    by (simp add: initial_state_def one_hour_interval_def)
  have off: "\<not> ac_is_on initial_state"
    by (simp add: initial_state_def)
  show ?thesis
    using u off
      countdown_text_cases [of "initial_state\<lparr>remaining_time := 0\<rparr>" 2]
      countdown_text_cases [of "initial_state\<lparr>remaining_time := 60000\<rparr>" 2]
      countdown_text_cases [of initial_state 60]
    by (simp add: format_lu_60)
qed

subsection \<open>Codes and intervals\<close>

lemma fixed_codes_invoke:
  assumes "\<forall>m \<in> set (ir_transmitted s).
      protocol m = InfraredProtocolNECext \<and> address m = 0x00006F98 \<and>
      (command m = 0x0000E619 \<or> command m = 0x0000F708)"
  shows "\<forall>m \<in> set (ir_transmitted (invoke c s)).
      protocol m = InfraredProtocolNECext \<and> address m = 0x00006F98 \<and>
      (command m = 0x0000E619 \<or> command m = 0x0000F708)"
  using assms by (cases c) (auto simp add: callback_defs code_defs Let_def)

lemma fixed_intervals_invoke:
  assumes "sequence_timer s = None \<or> sequence_timer s = Some 1000"
    and "countdown_timer s = None \<or> countdown_timer s = Some 60000"
    and "signal_timer s = None \<or> signal_timer s = Some 3600000 \<and> ac_is_on s \<or>
         signal_timer s = Some 10800000 \<and> \<not> ac_is_on s"
  shows "(sequence_timer (invoke c s) = None \<or> sequence_timer (invoke c s) = Some 1000) \<and>
    (countdown_timer (invoke c s) = None \<or> countdown_timer (invoke c s) = Some 60000) \<and>
    (signal_timer (invoke c s) = None \<or>
     signal_timer (invoke c s) = Some 3600000 \<and> ac_is_on (invoke c s) \<or>
     signal_timer (invoke c s) = Some 10800000 \<and> \<not> ac_is_on (invoke c s))"
  using assms by (cases c) (auto simp add: callback_defs interval_defs Let_def)

text \<open>What holds of a state with respect to codes and intervals, for use in both kinds
  of execution: it is kept by every callback and by stopping any timer.\<close>

lemma fixed_run:
  assumes "\<forall>m \<in> set (ir_transmitted s).
      protocol m = InfraredProtocolNECext \<and> address m = 0x00006F98 \<and>
      (command m = 0x0000E619 \<or> command m = 0x0000F708)"
    and "sequence_timer s = None \<or> sequence_timer s = Some 1000"
    and "countdown_timer s = None \<or> countdown_timer s = Some 60000"
    and "signal_timer s = None \<or> signal_timer s = Some 3600000 \<and> ac_is_on s \<or>
         signal_timer s = Some 10800000 \<and> \<not> ac_is_on s"
  shows "(\<forall>m \<in> set (ir_transmitted (run cbs s)).
      protocol m = InfraredProtocolNECext \<and> address m = 0x00006F98 \<and>
      (command m = 0x0000E619 \<or> command m = 0x0000F708)) \<and>
    (sequence_timer (run cbs s) = None \<or> sequence_timer (run cbs s) = Some 1000) \<and>
    (countdown_timer (run cbs s) = None \<or> countdown_timer (run cbs s) = Some 60000) \<and>
    (signal_timer (run cbs s) = None \<or>
     signal_timer (run cbs s) = Some 3600000 \<and> ac_is_on (run cbs s) \<or>
     signal_timer (run cbs s) = Some 10800000 \<and> \<not> ac_is_on (run cbs s))"
  using assms
proof (induction cbs arbitrary: s)
  case Nil
  then show ?case by simp
next
  case (Cons c cbs)
  have "run (c # cbs) s = run cbs (invoke c s)" by simp
  moreover note Cons.IH [OF fixed_codes_invoke [OF Cons.prems(1)]
      fixed_intervals_invoke [OF Cons.prems(2-4), THEN conjunct1]
      fixed_intervals_invoke [OF Cons.prems(2-4), THEN conjunct2, THEN conjunct1]
      fixed_intervals_invoke [OF Cons.prems(2-4), THEN conjunct2, THEN conjunct2]]
  ultimately show ?case by simp
qed

lemma fixed_run_timers:
  assumes "run_timers cbs s = Some t"
    and "\<forall>m \<in> set (ir_transmitted s).
      protocol m = InfraredProtocolNECext \<and> address m = 0x00006F98 \<and>
      (command m = 0x0000E619 \<or> command m = 0x0000F708)"
    and "sequence_timer s = None \<or> sequence_timer s = Some 1000"
    and "countdown_timer s = None \<or> countdown_timer s = Some 60000"
    and "signal_timer s = None \<or> signal_timer s = Some 3600000 \<and> ac_is_on s \<or>
         signal_timer s = Some 10800000 \<and> \<not> ac_is_on s"
  shows "(\<forall>m \<in> set (ir_transmitted t).
      protocol m = InfraredProtocolNECext \<and> address m = 0x00006F98 \<and>
      (command m = 0x0000E619 \<or> command m = 0x0000F708)) \<and>
    (sequence_timer t = None \<or> sequence_timer t = Some 1000) \<and>
    (countdown_timer t = None \<or> countdown_timer t = Some 60000) \<and>
    (signal_timer t = None \<or> signal_timer t = Some 3600000 \<and> ac_is_on t \<or>
     signal_timer t = Some 10800000 \<and> \<not> ac_is_on t)"
  using assms
proof (induction cbs arbitrary: s)
  case Nil
  then show ?case by simp
next
  case (Cons c cbs)
  from Cons.prems(1) obtain s0 where
    s0: "s0 = (case c of ScheduleTick \<Rightarrow> s\<lparr>signal_timer := None\<rparr>
                       | SequenceStep \<Rightarrow> s\<lparr>sequence_timer := None\<rparr>
                       | CountdownTick \<Rightarrow> s\<lparr>countdown_timer := None\<rparr>)"
    and rest: "run_timers cbs (invoke c s0) = Some t"
    by (cases c) (auto split: option.splits)
  have codes: "\<forall>m \<in> set (ir_transmitted s0).
      protocol m = InfraredProtocolNECext \<and> address m = 0x00006F98 \<and>
      (command m = 0x0000E619 \<or> command m = 0x0000F708)"
    using Cons.prems(2) s0 by (cases c) simp_all
  have seq: "sequence_timer s0 = None \<or> sequence_timer s0 = Some 1000"
    using Cons.prems(3) s0 by (cases c) simp_all
  have cnt: "countdown_timer s0 = None \<or> countdown_timer s0 = Some 60000"
    using Cons.prems(4) s0 by (cases c) simp_all
  have sig: "signal_timer s0 = None \<or> signal_timer s0 = Some 3600000 \<and> ac_is_on s0 \<or>
         signal_timer s0 = Some 10800000 \<and> \<not> ac_is_on s0"
    using Cons.prems(5) s0 by (cases c) simp_all
  show ?case
    by (rule Cons.IH [OF rest fixed_codes_invoke [OF codes]
      fixed_intervals_invoke [OF seq cnt sig, THEN conjunct1]
      fixed_intervals_invoke [OF seq cnt sig, THEN conjunct2, THEN conjunct1]
      fixed_intervals_invoke [OF seq cnt sig, THEN conjunct2, THEN conjunct2]])
qed

lemma ac_app_start_fields:
  "ir_transmitted ac_app_start =
     [\<lparr>protocol = InfraredProtocolNECext, address = 0x00006F98, command = 0x0000E619\<rparr>]"
  "\<not> ac_is_on ac_app_start"
  "sequence_state ac_app_start = AcSequenceTurnOnStep1"
  "signal_timer ac_app_start = None"
  "sequence_timer ac_app_start = Some 1000"
  "countdown_timer ac_app_start = Some 60000"
  by (simp_all add: ac_app_start_def initial_state_def callback_defs interval_defs code_defs
      Let_def)

text \<open>
  C8. The four interval constants are 1000, 60 000, 3 600 000 and 10 800 000 ms. In
  every state reached from the initial statics by any sequence of callbacks, and in every
  state reached from the start-up state by timer expiries, every message transmitted so
  far is an extended-NEC message with address 0x00006F98 and command 0x0000E619 or
  0x0000F708; the sequence timer, when running, runs for 1000 ms; the countdown timer,
  when running, for 60 000 ms; the schedule timer, when running, for 3 600 000 ms with
  the A/C on and for 10 800 000 ms with the A/C off.
\<close>

theorem fixed_codes_and_intervals:
  "one_second_interval = 1000 \<and> one_minute_interval = 60000 \<and>
   one_hour_interval = 3600000 \<and> three_hour_interval = 10800000 \<and>
   (\<forall>s \<in> insert (run cbs initial_state) (set_option (run_timers cbs ac_app_start)).
      (\<forall>m \<in> set (ir_transmitted s).
         protocol m = InfraredProtocolNECext \<and> address m = 0x00006F98 \<and>
         (command m = 0x0000E619 \<or> command m = 0x0000F708)) \<and>
      (sequence_timer s = None \<or> sequence_timer s = Some 1000) \<and>
      (countdown_timer s = None \<or> countdown_timer s = Some 60000) \<and>
      (signal_timer s = None \<or> signal_timer s = Some 3600000 \<and> ac_is_on s \<or>
       signal_timer s = Some 10800000 \<and> \<not> ac_is_on s))"
proof -
  let ?P = "\<lambda>s. (\<forall>m \<in> set (ir_transmitted s).
         protocol m = InfraredProtocolNECext \<and> address m = 0x00006F98 \<and>
         (command m = 0x0000E619 \<or> command m = 0x0000F708)) \<and>
      (sequence_timer s = None \<or> sequence_timer s = Some 1000) \<and>
      (countdown_timer s = None \<or> countdown_timer s = Some 60000) \<and>
      (signal_timer s = None \<or> signal_timer s = Some 3600000 \<and> ac_is_on s \<or>
       signal_timer s = Some 10800000 \<and> \<not> ac_is_on s)"
  have raw: "?P (run cbs initial_state)"
    by (rule fixed_run) (simp_all add: initial_state_def)
  have timed: "?P t" if "run_timers cbs ac_app_start = Some t" for t
    using that by (rule fixed_run_timers) (simp_all add: ac_app_start_fields)
  have every: "\<forall>s \<in> insert (run cbs initial_state) (set_option (run_timers cbs ac_app_start)). ?P s"
  proof
    fix s
    assume "s \<in> insert (run cbs initial_state) (set_option (run_timers cbs ac_app_start))"
    then consider "s = run cbs initial_state" | "run_timers cbs ac_app_start = Some s"
      by (auto simp add: elem_set)
    then show "?P s"
    proof cases
      case 1
      with raw show ?thesis by simp
    next
      case 2
      then show ?thesis by (rule timed)
    qed
  qed
  have ivals: "one_second_interval = 1000 \<and> one_minute_interval = 60000 \<and>
      one_hour_interval = 3600000 \<and> three_hour_interval = 10800000"
    by (simp add: interval_defs)
  from ivals every show ?thesis by blast
qed

theorem fixed_codes_and_intervals_witness:
  "map_option ir_transmitted
     (run_timers [SequenceStep, SequenceStep, ScheduleTick] ac_app_start) =
     Some [\<lparr>protocol = InfraredProtocolNECext, address = 0x00006F98, command = 0x0000E619\<rparr>,
           \<lparr>protocol = InfraredProtocolNECext, address = 0x00006F98, command = 0x0000F708\<rparr>,
           \<lparr>protocol = InfraredProtocolNECext, address = 0x00006F98, command = 0x0000F708\<rparr>,
           \<lparr>protocol = InfraredProtocolNECext, address = 0x00006F98, command = 0x0000E619\<rparr>] \<and>
   map_option signal_timer
     (run_timers [SequenceStep, SequenceStep, ScheduleTick] ac_app_start) =
     Some (Some 10800000) \<and>
   map_option countdown_timer
     (run_timers [SequenceStep, SequenceStep, ScheduleTick] ac_app_start) =
     Some (Some 60000) \<and>
   map_option sequence_timer
     (run_timers [SequenceStep, SequenceStep, ScheduleTick] ac_app_start) = Some None \<and>
   ir_transmitted (run [SequenceStep, SequenceStep, ScheduleTick] initial_state) =
     [\<lparr>protocol = InfraredProtocolNECext, address = 0x00006F98, command = 0x0000E619\<rparr>] \<and>
   sequence_timer (run [SequenceStep, SequenceStep, ScheduleTick] initial_state) = Some 1000"
  using fixed_codes_and_intervals [of "[SequenceStep, SequenceStep, ScheduleTick]"]
  by (simp add: ac_app_start_def initial_state_def callback_defs interval_defs code_defs Let_def)

subsection \<open>Starting the sequence while it is running\<close>

text \<open>The discipline of the timers: while the sequence is idle its timer is stopped;
  while it is not, the A/C is recorded as off, the schedule timer is stopped and the
  sequence timer runs. Every timer expiry keeps it.\<close>

lemma timer_discipline_expire:
  assumes "timer_expire c s = Some s'"
    and "if sequence_state s = AcSequenceIdle then sequence_timer s = None
         else \<not> ac_is_on s \<and> signal_timer s = None \<and> sequence_timer s = Some 1000"
  shows "if sequence_state s' = AcSequenceIdle then sequence_timer s' = None
         else \<not> ac_is_on s' \<and> signal_timer s' = None \<and> sequence_timer s' = Some 1000"
proof (cases c)
  case ScheduleTick
  with assms show ?thesis
    by (auto simp add: callback_defs interval_defs Let_def split: option.splits if_splits)
next
  case SequenceStep
  with assms show ?thesis
    by (cases "sequence_state s")
      (auto simp add: callback_defs interval_defs Let_def split: option.splits if_splits)
next
  case CountdownTick
  with assms show ?thesis
    by (auto simp add: callback_defs Let_def split: option.splits if_splits)
qed

lemma timer_discipline_run:
  assumes "run_timers cbs s = Some t"
    and "if sequence_state s = AcSequenceIdle then sequence_timer s = None
         else \<not> ac_is_on s \<and> signal_timer s = None \<and> sequence_timer s = Some 1000"
  shows "if sequence_state t = AcSequenceIdle then sequence_timer t = None
         else \<not> ac_is_on t \<and> signal_timer t = None \<and> sequence_timer t = Some 1000"
  using assms
proof (induction cbs arbitrary: s)
  case Nil
  then show ?case by (auto split: if_splits)
next
  case (Cons c cbs)
  from Cons.prems(1) obtain s' where
    first: "timer_expire c s = Some s'" and rest: "run_timers cbs s' = Some t"
    by (auto split: option.splits)
  from first Cons.prems(2)
  have "if sequence_state s' = AcSequenceIdle then sequence_timer s' = None
        else \<not> ac_is_on s' \<and> signal_timer s' = None \<and> sequence_timer s' = Some 1000"
    by (rule timer_discipline_expire)
  with rest show ?case by (rule Cons.IH)
qed

text \<open>
  C4, as the code has it. \<open>send_signals_and_update_text\<close> has no guard on the sequence
  state: entered with the A/C off while the sequence is not idle, it transmits the power
  code again, puts the sequence back to \<open>AcSequenceTurnOnStep1\<close> and restarts the
  sequence timer for 1000 ms (\<open>ac_is_on\<close>, interval and remaining time unchanged). What
  keeps this from happening is the timers: in every state reached from start-up by timer
  expiries in which the sequence is not idle, the schedule timer is stopped, so the
  schedule tick cannot run.
\<close>

theorem start_while_busy_restarts:
  "(\<not> ac_is_on s \<and> sequence_state s \<noteq> AcSequenceIdle \<longrightarrow>
      (let s' = send_signals_and_update_text s in
         ir_transmitted s' = ir_transmitted s @
           [\<lparr>protocol = InfraredProtocolNECext, address = 0x00006F98, command = 0x0000E619\<rparr>] \<and>
         sequence_state s' = AcSequenceTurnOnStep1 \<and>
         sequence_timer s' = Some 1000 \<and>
         \<not> ac_is_on s' \<and>
         next_signal_interval s' = next_signal_interval s \<and>
         remaining_time s' = remaining_time s)) \<and>
   (run_timers cbs ac_app_start = Some t \<and> sequence_state t \<noteq> AcSequenceIdle \<longrightarrow>
      \<not> ac_is_on t \<and> signal_timer t = None \<and> timer_expire ScheduleTick t = None)"
proof -
  have restart: "\<not> ac_is_on s \<and> sequence_state s \<noteq> AcSequenceIdle \<longrightarrow>
      (let s' = send_signals_and_update_text s in
         ir_transmitted s' = ir_transmitted s @
           [\<lparr>protocol = InfraredProtocolNECext, address = 0x00006F98, command = 0x0000E619\<rparr>] \<and>
         sequence_state s' = AcSequenceTurnOnStep1 \<and>
         sequence_timer s' = Some 1000 \<and>
         \<not> ac_is_on s' \<and>
         next_signal_interval s' = next_signal_interval s \<and>
         remaining_time s' = remaining_time s)"
    by (simp add: callback_defs interval_defs code_defs Let_def)
  have stopped: "\<not> ac_is_on t \<and> signal_timer t = None \<and> timer_expire ScheduleTick t = None"
    if reach: "run_timers cbs ac_app_start = Some t" and busy: "sequence_state t \<noteq> AcSequenceIdle"
  proof -
    have "if sequence_state t = AcSequenceIdle then sequence_timer t = None
          else \<not> ac_is_on t \<and> signal_timer t = None \<and> sequence_timer t = Some 1000"
      using reach by (rule timer_discipline_run) (simp add: ac_app_start_fields)
    with busy show ?thesis by simp
  qed
  from restart stopped show ?thesis by blast
qed

theorem start_while_busy_restarts_witness:
  "\<not> ac_is_on (run [ScheduleTick, SequenceStep] initial_state) \<and>
   sequence_state (run [ScheduleTick, SequenceStep] initial_state) = AcSequenceTurnOnStep2 \<and>
   sequence_state (send_signals_and_update_text
      (run [ScheduleTick, SequenceStep] initial_state)) = AcSequenceTurnOnStep1 \<and>
   ir_transmitted (send_signals_and_update_text
      (run [ScheduleTick, SequenceStep] initial_state)) =
     [\<lparr>protocol = InfraredProtocolNECext, address = 0x00006F98, command = 0x0000E619\<rparr>,
      \<lparr>protocol = InfraredProtocolNECext, address = 0x00006F98, command = 0x0000F708\<rparr>,
      \<lparr>protocol = InfraredProtocolNECext, address = 0x00006F98, command = 0x0000E619\<rparr>] \<and>
   run_timers [SequenceStep] ac_app_start =
     Some (sequence_step_callback (ac_app_start\<lparr>sequence_timer := None\<rparr>)) \<and>
   sequence_state (sequence_step_callback (ac_app_start\<lparr>sequence_timer := None\<rparr>)) =
     AcSequenceTurnOnStep2 \<and>
   signal_timer (sequence_step_callback (ac_app_start\<lparr>sequence_timer := None\<rparr>)) = None \<and>
   timer_expire ScheduleTick
     (sequence_step_callback (ac_app_start\<lparr>sequence_timer := None\<rparr>)) = None"
proof -
  have off: "\<not> ac_is_on (run [ScheduleTick, SequenceStep] initial_state)"
    and step2: "sequence_state (run [ScheduleTick, SequenceStep] initial_state) =
      AcSequenceTurnOnStep2"
    and sent: "ir_transmitted (run [ScheduleTick, SequenceStep] initial_state) =
     [\<lparr>protocol = InfraredProtocolNECext, address = 0x00006F98, command = 0x0000E619\<rparr>,
      \<lparr>protocol = InfraredProtocolNECext, address = 0x00006F98, command = 0x0000F708\<rparr>]"
    by (simp_all add: callback_defs initial_state_def code_defs Let_def)
  have reach: "run_timers [SequenceStep] ac_app_start =
      Some (sequence_step_callback (ac_app_start\<lparr>sequence_timer := None\<rparr>))"
    by (simp add: ac_app_start_fields)
  have busy: "sequence_state (sequence_step_callback (ac_app_start\<lparr>sequence_timer := None\<rparr>)) =
      AcSequenceTurnOnStep2"
    by (simp add: sequence_step_callback_def ac_app_start_fields)
  show ?thesis
    using off step2 sent reach busy
      start_while_busy_restarts
        [of "run [ScheduleTick, SequenceStep] initial_state" "[SequenceStep]"
            "sequence_step_callback (ac_app_start\<lparr>sequence_timer := None\<rparr>)"]
    by (simp add: Let_def)
qed

text \<open>
  C4 as stated fails: after a schedule tick and one sequence step from the initial
  statics the A/C is off and the sequence is in \<open>AcSequenceTurnOnStep2\<close>; the schedule
  tick entered there transmits a third message and moves the sequence state.
\<close>

theorem start_while_busy_counterexample:
  "\<not> ac_is_on (run [ScheduleTick, SequenceStep] initial_state) \<and>
   sequence_state (run [ScheduleTick, SequenceStep] initial_state) = AcSequenceTurnOnStep2 \<and>
   length (ir_transmitted (run [ScheduleTick, SequenceStep] initial_state)) = 2 \<and>
   length (ir_transmitted (send_signals_and_update_text
      (run [ScheduleTick, SequenceStep] initial_state))) = 3 \<and>
   sequence_state (send_signals_and_update_text
      (run [ScheduleTick, SequenceStep] initial_state)) = AcSequenceTurnOnStep1 \<and>
   send_signals_and_update_text (run [ScheduleTick, SequenceStep] initial_state) \<noteq>
     run [ScheduleTick, SequenceStep] initial_state"
proof -
  have neq: "send_signals_and_update_text (run [ScheduleTick, SequenceStep] initial_state) \<noteq>
     run [ScheduleTick, SequenceStep] initial_state"
  proof
    assume "send_signals_and_update_text (run [ScheduleTick, SequenceStep] initial_state) =
      run [ScheduleTick, SequenceStep] initial_state"
    then have "sequence_state (send_signals_and_update_text
        (run [ScheduleTick, SequenceStep] initial_state)) =
      sequence_state (run [ScheduleTick, SequenceStep] initial_state)"
      by simp
    then show False
      by (simp add: callback_defs initial_state_def Let_def)
  qed
  then show ?thesis
    by (simp add: callback_defs initial_state_def Let_def)
qed

end
